theory Spec2Isabelle
  imports Complex_Main "HOL-Library.AList"
begin

section \<open>Data model\<close>

text \<open>
  The weather station keeps its readings in the module-level dictionary
  \<^verbatim>\<open>data_records\<close>: four lists, one per column. Instants
  (\<^verbatim>\<open>datetime\<close>, \<^verbatim>\<open>pd.Timestamp\<close>) are counted in microseconds.
  A column value is a float; the missing value (NaN, what \<^verbatim>\<open>isnull\<close> detects)
  is \<open>None\<close>. Floats are idealised as real numbers.
\<close>

type_synonym timestamp = int

type_synonym metric = "real option"

record data_records =
  Time :: "timestamp list"
  Temperature :: "metric list"
  Humidity :: "metric list"
  Pressure :: "metric list"

text \<open>Exceptions of the program, with the text \<^verbatim>\<open>str(e)\<close> gives.\<close>

datatype exn = IndexError | ValueError | OSError string

fun str :: "exn \<Rightarrow> string" where
  "str IndexError = ''single positional indexer is out-of-bounds''"
| "str ValueError = ''All arrays must be of the same length''"
| "str (OSError m) = m"

text \<open>
  \<^verbatim>\<open>pd.DataFrame(data_records)\<close> turns the four columns into a table with one row
  per reading; it raises \<^verbatim>\<open>ValueError\<close> when the columns differ in length.
\<close>

record reading =
  time :: timestamp
  temperature :: metric
  humidity :: metric
  pressure :: metric

type_synonym df = "reading list"

definition DataFrame :: "data_records \<Rightarrow> exn + df" where
  "DataFrame d =
     (if length (Temperature d) = length (Time d)
         \<and> length (Humidity d) = length (Time d)
         \<and> length (Pressure d) = length (Time d)
      then Inr (map (\<lambda>(t, c, h, p). \<lparr>time = t, temperature = c, humidity = h, pressure = p\<rparr>)
                  (zip (Time d) (zip (Temperature d) (zip (Humidity d) (Pressure d)))))
      else Inl ValueError)"

section \<open>Charts: \<^verbatim>\<open>create_scatter_plots\<close>\<close>

text \<open>\<^verbatim>\<open>Series.mean()\<close> skips missing values; with no value left it is NaN.\<close>

definition mean :: "metric list \<Rightarrow> metric" where
  "mean ys =
     (let vs = map the (filter (\<lambda>y. y \<noteq> None) ys)
      in if vs = [] then None else Some (sum_list vs / real (length vs)))"

text \<open>\<^verbatim>\<open>y.isnull().any()\<close>\<close>

definition isnull_any :: "metric list \<Rightarrow> bool" where
  "isnull_any ys = list_ex (\<lambda>y. y = None) ys"

text \<open>\<^verbatim>\<open>np.arange(n)\<close>: the sample indices 0, 1, ..., n - 1.\<close>

definition arange :: "nat \<Rightarrow> real list" where
  "arange n = map real [0..<n]"

text \<open>
  \<^verbatim>\<open>np.polyfit(x, y, 1)\<close> returns the coefficients (slope, intercept) of the line
  that minimises the sum of squared residuals. Over the reals that line is the solution
  of the normal equations, which is what is written here; it is determined when the
  \<open>x\<close> are not all equal.
\<close>

definition polyfit :: "real list \<Rightarrow> real list \<Rightarrow> real \<times> real" where
  "polyfit xs ys =
     (let n = real (length xs);
          sx = sum_list xs;
          sy = sum_list ys;
          sxx = sum_list (map (\<lambda>x. x * x) xs);
          sxy = sum_list (map (\<lambda>(x, y). x * y) (zip xs ys));
          slope = (n * sxy - sx * sy) / (n * sxx - sx * sx);
          intercept = (sy - slope * sx) / n
      in (slope, intercept))"

text \<open>\<^verbatim>\<open>np.polyval(coeffs, x)\<close> for a line.\<close>

definition polyval :: "real \<times> real \<Rightarrow> real list \<Rightarrow> real list" where
  "polyval coeffs xs = map (\<lambda>x. fst coeffs * x + snd coeffs) xs"

text \<open>
  One of the three axes of the figure: the scatter of the raw values against time, the
  horizontal line at the mean, and the trend line when it is drawn.
\<close>

record chart =
  scatter :: "(timestamp \<times> metric) list"
  axhline :: metric
  trend :: "(timestamp \<times> real) list option"

text \<open>
  The block the source repeats for each metric: \<open>ts\<close> is \<^verbatim>\<open>df['Time']\<close> and
  \<open>ys\<close> the metric's column. The trend is fitted against \<^verbatim>\<open>x_temp\<close>, the
  indices, and drawn against the time column.
\<close>

definition plot_metric :: "timestamp list \<Rightarrow> metric list \<Rightarrow> chart" where
  "plot_metric ts ys =
     (let avg = mean ys;
          x_temp = arange (length ts)
      in \<lparr>scatter = zip ts ys,
          axhline = avg,
          trend = (if length ts > 1 \<and> \<not> isnull_any ys
                   then (let coeffs = polyfit x_temp (map the ys);
                             trend_line = polyval coeffs x_temp
                         in Some (zip ts trend_line))
                   else None)\<rparr>)"

record figure =
  temperature_axes :: chart
  humidity_axes :: chart
  pressure_axes :: chart

definition create_scatter_plots :: "df \<Rightarrow> figure" where
  "create_scatter_plots df =
     \<lparr>temperature_axes = plot_metric (map time df) (map temperature df),
      humidity_axes = plot_metric (map time df) (map humidity df),
      pressure_axes = plot_metric (map time df) (map pressure df)\<rparr>"

section \<open>The report file\<close>

text \<open>
  A workbook with its active sheet: the cell dictionary of the sheet, keyed by
  (row, column) from 1, and the list of embedded images.
\<close>

datatype cell_value = Str string | Stamp timestamp | Num real | NaN

record image =
  png :: figure
  anchor :: "string \<times> nat"

record workbook =
  title :: string
  cells :: "((nat \<times> nat) \<times> cell_value) list"
  images :: "image list"

text \<open>
  \<^verbatim>\<open>sheet.max_row\<close>: the largest row that holds a cell, 1 for an empty sheet. Rows
  count from 1, so this is the maximum of 1 and the rows of the cells.
\<close>

definition max_row :: "workbook \<Rightarrow> nat" where
  "max_row sheet = Max (insert 1 (set (map (\<lambda>c. fst (fst c)) (cells sheet))))"

text \<open>The cells of one row, columns from 1.\<close>

definition row_cells :: "nat \<Rightarrow> cell_value list \<Rightarrow> ((nat \<times> nat) \<times> cell_value) list" where
  "row_cells r vs = map (\<lambda>(c, v). ((r, Suc c), v)) (enumerate 0 vs)"

definition columns :: "string list" where
  "columns = [''Time'',
              ''Temperature ('' @ [CHR 0xC2, CHR 0xB0] @ ''C)'',
              ''Humidity (%)'',
              ''Pressure (hPa)'']"

text \<open>
  \<^verbatim>\<open>df.to_excel(workbook, index=False, sheet_name='SensorData')\<close> on a new
  workbook: the header in row 1, one row per reading below it, a missing value written as
  the empty string, no image.
\<close>

definition excel_row :: "reading \<Rightarrow> cell_value list" where
  "excel_row r =
     Stamp (time r) #
     map (\<lambda>m. case m of None \<Rightarrow> Str [] | Some v \<Rightarrow> Num v)
       [temperature r, humidity r, pressure r]"

definition to_excel :: "df \<Rightarrow> workbook" where
  "to_excel df =
     \<lparr>title = ''SensorData'',
      cells = row_cells 1 (map Str columns)
              @ concat (map (\<lambda>(r, rd). row_cells r (excel_row rd)) (enumerate 2 df)),
      images = []\<rparr>"

text \<open>
  \<^verbatim>\<open>df.iloc[-1, col]\<close>: the value of column \<open>col\<close> in the last row, a
  missing value being the float NaN; \<^verbatim>\<open>IndexError\<close> on a table without rows.
\<close>

definition row_values :: "reading \<Rightarrow> cell_value list" where
  "row_values r =
     Stamp (time r) #
     map (\<lambda>m. case m of None \<Rightarrow> NaN | Some v \<Rightarrow> Num v)
       [temperature r, humidity r, pressure r]"

definition iloc_last :: "df \<Rightarrow> nat \<Rightarrow> exn + cell_value" where
  "iloc_last df col =
     (if df = [] \<or> col \<ge> length columns then Inl IndexError
      else Inr (row_values (last df) ! col))"

text \<open>
  The loop \<^verbatim>\<open>for col in range(len(df.columns))\<close> that writes the newest reading
  into row \<open>start_row\<close>; \<^verbatim>\<open>sheet.cell\<close> creates the cell or overwrites it.
\<close>

fun write_cols :: "df \<Rightarrow> nat \<Rightarrow> nat list \<Rightarrow> ((nat \<times> nat) \<times> cell_value) list
                    \<Rightarrow> exn + ((nat \<times> nat) \<times> cell_value) list" where
  "write_cols df start_row [] cs = Inr cs"
| "write_cols df start_row (col # cols) cs =
     (case iloc_last df col of
        Inl e \<Rightarrow> Inl e
      | Inr v \<Rightarrow> write_cols df start_row cols (AList.update (start_row, col + 1) v cs))"

text \<open>
  \<^verbatim>\<open>for image in sheet._images: sheet._images.remove(image)\<close>. The list iterator
  keeps an index \<open>i\<close> into the list that the body shrinks: it reads element \<open>i\<close>,
  advances, and stops once \<open>i\<close> has reached the current length.
\<close>

function remove_images :: "nat \<Rightarrow> 'a list \<Rightarrow> 'a list" where
  "remove_images i imgs =
     (if i < length imgs then remove_images (Suc i) (remove1 (imgs ! i) imgs) else imgs)"
  by pat_completeness auto
termination
proof (relation "measure (\<lambda>(i, imgs). length imgs - i)")
  show "wf (measure (\<lambda>(i, imgs :: 'a list). length imgs - i))"
    by simp
next
  fix i :: nat and imgs :: "'a list"
  assume "i < length imgs"
  moreover from this have "length (remove1 (imgs ! i) imgs) = length imgs - 1"
    by (simp add: length_remove1)
  ultimately show "((Suc i, remove1 (imgs ! i) imgs), (i, imgs))
                     \<in> measure (\<lambda>(i, imgs). length imgs - i)"
    by simp
qed

declare remove_images.simps [simp del]

text \<open>
  \<^verbatim>\<open>append_to_excel(df)\<close>. The file on disk is \<open>None\<close> when it does not exist.
  When it exists the workbook is loaded, the newest reading written below the last row,
  the images removed by the loop above, the new figure embedded at column E of the new
  row, and the workbook saved. Otherwise the table is written to a new file and the
  function returns. An exception leaves the file as it was: it is raised before the save.
\<close>

definition append_to_excel :: "df \<Rightarrow> workbook option \<Rightarrow> exn + workbook option" where
  "append_to_excel df excel_file =
     (case excel_file of
        None \<Rightarrow> Inr (Some (to_excel df))
      | Some sheet \<Rightarrow>
          (let start_row = max_row sheet + 1
           in case write_cols df start_row [0..<length columns] (cells sheet) of
                Inl e \<Rightarrow> Inl e
              | Inr cs \<Rightarrow>
                  (let imgs = remove_images 0 (images sheet);
                       fig = create_scatter_plots df;
                       img = \<lparr>png = fig, anchor = (''E'', start_row)\<rparr>
                   in Inr (Some (sheet\<lparr>cells := cs, images := imgs @ [img]\<rparr>)))))"

text \<open>The data rows of the report: the rows below the header that hold a cell.\<close>

definition data_rows :: "workbook option \<Rightarrow> nat" where
  "data_rows excel_file =
     (case excel_file of
        None \<Rightarrow> 0
      | Some sheet \<Rightarrow>
          length (remdups (filter (\<lambda>r. 1 < r) (map (\<lambda>c. fst (fst c)) (cells sheet)))))"

definition image_count :: "workbook option \<Rightarrow> nat" where
  "image_count excel_file = (case excel_file of None \<Rightarrow> 0 | Some sheet \<Rightarrow> length (images sheet))"

section \<open>The recording loop\<close>

text \<open>
  What the program prints, and its state: the record set, the time of the last
  recording, the report file and the standard output.
\<close>

datatype line =
  Banner
  | Reading_line timestamp metric metric metric
  | Program_stopped
  | Data_saved
  | Unexpected string

record state =
  records :: data_records
  last_record_time :: timestamp
  excel_file :: "workbook option"
  stdout :: "line list"

definition record_interval :: int where
  "record_interval = 30 * 1000000"

definition print :: "line \<Rightarrow> state \<Rightarrow> state" where
  "print l s = s\<lparr>stdout := stdout s @ [l]\<rparr>"

text \<open>
  One pass through the body of \<^verbatim>\<open>while True\<close>. The environment supplies
  \<^verbatim>\<open>datetime.now()\<close>, the outcome of \<^verbatim>\<open>bme280.sample\<close> (the three
  compensated values, or the exception the bus raises) and \<^verbatim>\<open>pd.Timestamp.now()\<close>.
  An exception comes back with the state at the moment it was raised.
\<close>

definition iteration ::
  "timestamp \<Rightarrow> exn + (metric \<times> metric \<times> metric) \<Rightarrow> timestamp \<Rightarrow> state \<Rightarrow> (exn \<times> state) + state" where
  "iteration current_time sensor stamp s =
     (if current_time \<ge> last_record_time s + record_interval then
        (case sensor of
           Inl e \<Rightarrow> Inl (e, s)
         | Inr (temperature_celsius, hum, pres) \<Rightarrow>
             (let d = records s;
                  d' = d\<lparr>Time := Time d @ [stamp],
                         Temperature := Temperature d @ [temperature_celsius],
                         Humidity := Humidity d @ [hum],
                         Pressure := Pressure d @ [pres]\<rparr>;
                  s1 = print (Reading_line stamp temperature_celsius hum pres) (s\<lparr>records := d'\<rparr>)
              in case DataFrame d' of
                   Inl e \<Rightarrow> Inl (e, s1)
                 | Inr df \<Rightarrow>
                     (case append_to_excel df (excel_file s1) of
                        Inl e \<Rightarrow> Inl (e, s1)
                      | Inr f \<Rightarrow> Inr (s1\<lparr>excel_file := f, last_record_time := current_time\<rparr>))))
      else Inr s)"

text \<open>
  How the program ends: still in the loop when the events run out, a normal end after
  \<^verbatim>\<open>except KeyboardInterrupt\<close> has saved, a normal end after
  \<^verbatim>\<open>except Exception\<close> has printed the message, or an exception that no
  handler caught.
\<close>

datatype outcome = Running | Stopped | Caught exn | Uncaught exn

text \<open>
  The handler \<^verbatim>\<open>except KeyboardInterrupt\<close>. An exception raised inside it is not
  seen by the \<^verbatim>\<open>except Exception\<close> clause of the same \<^verbatim>\<open>try\<close>.
\<close>

definition on_interrupt :: "state \<Rightarrow> outcome \<times> state" where
  "on_interrupt s =
     (let s1 = print Program_stopped s
      in case DataFrame (records s1) of
           Inl e \<Rightarrow> (Uncaught e, s1)
         | Inr df \<Rightarrow>
             (case append_to_excel df (excel_file s1) of
                Inl e \<Rightarrow> (Uncaught e, s1)
              | Inr f \<Rightarrow> (Stopped, print Data_saved (s1\<lparr>excel_file := f\<rparr>))))"

text \<open>
  The events the loop meets, in order: a pass through the loop body (followed by the
  sleep), or the interrupt signal, taken to arrive during the sleep.
\<close>

datatype event =
  Pass timestamp "exn + (metric \<times> metric \<times> metric)" timestamp
  | KeyboardInterrupt

fun run :: "event list \<Rightarrow> state \<Rightarrow> outcome \<times> state" where
  "run [] s = (Running, s)"
| "run (KeyboardInterrupt # es) s = on_interrupt s"
| "run (Pass current_time sensor stamp # es) s =
     (case iteration current_time sensor stamp s of
        Inl (e, s') \<Rightarrow> (Caught e, print (Unexpected (str e)) s')
      | Inr s' \<Rightarrow> run es s')"

text \<open>
  The program from its start: \<open>file0\<close> is the report file found on disk, \<open>t0\<close> the
  time at which \<^verbatim>\<open>last_record_time\<close> is initialised.
\<close>

definition start :: "workbook option \<Rightarrow> timestamp \<Rightarrow> state" where
  "start file0 t0 =
     \<lparr>records = \<lparr>Time = [], Temperature = [], Humidity = [], Pressure = []\<rparr>,
      last_record_time = t0,
      excel_file = file0,
      stdout = [Banner]\<rparr>"

definition program :: "workbook option \<Rightarrow> timestamp \<Rightarrow> event list \<Rightarrow> outcome \<times> state" where
  "program file0 t0 es = run es (start file0 t0)"

text \<open>
  A pass of the loop that comes too early to record: the interval since \<open>t0\<close> has
  not elapsed.
\<close>

definition idle :: "timestamp \<Rightarrow> event \<Rightarrow> bool" where
  "idle t0 e =
     (case e of
        Pass current_time sensor stamp \<Rightarrow> current_time < t0 + record_interval
      | KeyboardInterrupt \<Rightarrow> False)"

text \<open>
  The columns of the record set have one length, and the report holds \<open>k\<close> data rows
  more than the record set has readings.
\<close>

definition aligned :: "data_records \<Rightarrow> bool" where
  "aligned d \<longleftrightarrow>
     length (Temperature d) = length (Time d)
     \<and> length (Humidity d) = length (Time d)
     \<and> length (Pressure d) = length (Time d)"

definition rows_in_step :: "nat \<Rightarrow> state \<Rightarrow> bool" where
  "rows_in_step k s \<longleftrightarrow>
     aligned (records s)
     \<and> data_rows (excel_file s) = k + length (Time (records s))"

text \<open>
  The scenario of the specification: a first sample of 22.0 degrees, 55 percent and
  1013 hPa, a second one of 23.0, 56 and 1012, taken 55 seconds apart.
\<close>

definition first_sample :: reading where
  "first_sample = \<lparr>time = 55000000, temperature = Some 22, humidity = Some 55, pressure = Some 1013\<rparr>"

definition second_sample :: reading where
  "second_sample = \<lparr>time = 110000000, temperature = Some 23, humidity = Some 56, pressure = Some 1012\<rparr>"

definition first_pass :: event where
  "first_pass = Pass 55000000 (Inr (Some 22, Some 55, Some 1013)) 55000000"

definition second_pass :: event where
  "second_pass = Pass 110000000 (Inr (Some 23, Some 56, Some 1012)) 110000000"

text \<open>
  Four readings whose temperatures rise by 2 per sample while their times are unevenly
  spaced, and a report that holds two embedded images.
\<close>

definition irregular_samples :: df where
  "irregular_samples =
     [\<lparr>time = 0, temperature = Some 10, humidity = Some 50, pressure = Some 1000\<rparr>,
      \<lparr>time = 55000000, temperature = Some 12, humidity = Some 50, pressure = Some 1000\<rparr>,
      \<lparr>time = 200000000, temperature = Some 14, humidity = Some 50, pressure = Some 1000\<rparr>,
      \<lparr>time = 1000000000, temperature = Some 16, humidity = Some 50, pressure = Some 1000\<rparr>]"

definition two_image_report :: workbook where
  "two_image_report =
     (to_excel [first_sample])
       \<lparr>images := [\<lparr>png = create_scatter_plots [first_sample], anchor = (''E'', 2)\<rparr>,
                   \<lparr>png = create_scatter_plots [first_sample], anchor = (''E'', 3)\<rparr>]\<rparr>"

text \<open>The elements at the odd positions 1, 3, 5, ... of a list, counted from 0.\<close>

fun every_other :: "'a list \<Rightarrow> 'a list" where
  "every_other (x # y # xs) = y # every_other xs"
| "every_other xs = []"

text \<open>
  The sum of the squared residuals of the line with coefficients (slope, intercept)
  through the points \<open>(x, y)\<close>: what a least-squares fit minimises.
\<close>

definition squared_residuals :: "real \<times> real \<Rightarrow> real list \<Rightarrow> real list \<Rightarrow> real" where
  "squared_residuals coeffs xs ys =
     sum_list (map (\<lambda>(x, y). (y - (fst coeffs * x + snd coeffs))\<^sup>2) (zip xs ys))"

section \<open>The image loop\<close>

lemma remove_images_length:
  "length (remove_images i imgs) =
     (if i \<le> length imgs then i + (length imgs - i) div 2 else length imgs)"
proof (induction i imgs rule: remove_images.induct)
  case (1 i imgs)
  show ?case
  proof (cases "i < length imgs")
    case True
    then have len: "length (remove1 (imgs ! i) imgs) = length imgs - 1"
      by (simp add: length_remove1)
    have "length (remove_images i imgs) = length (remove_images (Suc i) (remove1 (imgs ! i) imgs))"
      using True by (subst remove_images.simps) simp
    also have "\<dots> = (if Suc i \<le> length imgs - 1 then Suc i + (length imgs - 1 - Suc i) div 2
                     else length imgs - 1)"
      using "1.IH" [OF True] len by simp
    also have "\<dots> = i + (length imgs - i) div 2"
      using True by (auto simp: not_le)
    finally show ?thesis using True by simp
  next
    case False
    then show ?thesis
      by (subst remove_images.simps) auto
  qed
qed

lemma remove1_nth_distinct:
  assumes "distinct xs" and "i < length xs"
  shows "remove1 (xs ! i) xs = take i xs @ drop (Suc i) xs"
proof -
  have xs: "xs = take i xs @ xs ! i # drop (Suc i) xs"
    using assms(2) by (simp add: id_take_nth_drop [symmetric])
  with assms(1) have "xs ! i \<notin> set (take i xs)"
    by (metis distinct_append disjoint_iff list.set_intros(1) distinct.simps(2) not_distinct_conv_prefix)
  then have "remove1 (xs ! i) (take i xs @ xs ! i # drop (Suc i) xs) = take i xs @ drop (Suc i) xs"
    by (simp add: remove1_append)
  with xs show ?thesis by simp
qed

lemma remove_images_distinct:
  "distinct imgs \<Longrightarrow> i \<le> length imgs \<Longrightarrow>
     remove_images i imgs = take i imgs @ every_other (drop i imgs)"
proof (induction i imgs rule: remove_images.induct)
  case (1 i imgs)
  show ?case
  proof (cases "i < length imgs")
    case False
    with "1.prems" show ?thesis
      by (subst remove_images.simps) simp
  next
    case True
    let ?xs = "remove1 (imgs ! i) imgs"
    have xs: "?xs = take i imgs @ drop (Suc i) imgs"
      using remove1_nth_distinct [OF "1.prems"(1) True] .
    have step: "remove_images i imgs = remove_images (Suc i) ?xs"
      using True by (subst remove_images.simps) simp
    have d: "distinct ?xs"
      using "1.prems"(1) by simp
    have here: "drop i imgs = imgs ! i # drop (Suc i) imgs"
      using True by (simp add: Cons_nth_drop_Suc)
    show ?thesis
    proof (cases "Suc i < length imgs")
      case False
      with True have last: "drop (Suc i) imgs = []" by simp
      have "remove_images (Suc i) ?xs = ?xs"
        using True False by (subst remove_images.simps) (auto simp: length_remove1)
      then show ?thesis
        unfolding step by (simp add: xs here last)
    next
      case more: True
      then have next_one: "drop (Suc i) imgs = imgs ! Suc i # drop (Suc (Suc i)) imgs"
        by (simp add: Cons_nth_drop_Suc)
      have le: "Suc i \<le> length ?xs"
        using True more by (simp add: length_remove1)
      have "remove_images (Suc i) ?xs = take (Suc i) ?xs @ every_other (drop (Suc i) ?xs)"
        using "1.IH" [OF True d le] .
      also have "take (Suc i) ?xs = take i imgs @ [imgs ! Suc i]"
        using True by (simp add: xs next_one min_def)
      also have "drop (Suc i) ?xs = drop (Suc (Suc i)) imgs"
        using True by (simp add: xs next_one min_def)
      finally show ?thesis
        unfolding step by (simp add: here next_one)
    qed
  qed
qed

section \<open>Writing a row\<close>

lemma update_fresh:
  "k \<notin> fst ` set cs \<Longrightarrow> AList.update k v cs = cs @ [(k, v)]"
  by (induction cs) auto

lemma row_le_max_row:
  assumes "((r, c), v) \<in> set (cells sheet)"
  shows "r \<le> max_row sheet"
proof -
  from assms have "r \<in> insert 1 (set (map (\<lambda>c. fst (fst c)) (cells sheet)))" by force
  then have "r \<le> Max (insert 1 (set (map (\<lambda>c. fst (fst c)) (cells sheet))))"
    by (intro Max_ge) auto
  then show ?thesis by (simp add: max_row_def)
qed

lemma max_row_positive: "1 \<le> max_row sheet"
  unfolding max_row_def by (intro Max_ge) auto

lemma next_row_free: "((max_row sheet + 1, c), v) \<notin> set (cells sheet)"
  using row_le_max_row [of "max_row sheet + 1" c v sheet] by auto

lemma write_cols_values:
  assumes "df \<noteq> []"
  shows "write_cols df r [0..<length columns] cs =
         Inr (AList.update (r, 4) (row_values (last df) ! 3)
               (AList.update (r, 3) (row_values (last df) ! 2)
                 (AList.update (r, 2) (row_values (last df) ! 1)
                   (AList.update (r, 1) (row_values (last df) ! 0) cs))))"
  using assms by (simp add: columns_def upt_rec iloc_last_def eval_nat_numeral)

lemma write_cols_empty: "write_cols [] r [0..<length columns] cs = Inl IndexError"
  by (simp add: columns_def upt_rec iloc_last_def)

lemma row_cells_row_values:
  "row_cells r (row_values x) =
     [((r, 1), row_values x ! 0), ((r, 2), row_values x ! 1),
      ((r, 3), row_values x ! 2), ((r, 4), row_values x ! 3)]"
  by (simp add: row_cells_def row_values_def enumerate_eq_zip upt_rec)

lemma write_cols_fresh:
  assumes "df \<noteq> []" and "\<forall>c v. ((r, c), v) \<notin> set cs"
  shows "write_cols df r [0..<length columns] cs = Inr (cs @ row_cells r (row_values (last df)))"
proof -
  have fresh: "(r, c) \<notin> fst ` set cs" for c
    using assms(2) by force
  show ?thesis
    unfolding write_cols_values [OF assms(1)] row_cells_row_values
    by (simp add: update_fresh fresh image_Un)
qed

lemma append_to_excel_existing:
  assumes "df \<noteq> []"
  shows "append_to_excel df (Some sheet) =
         Inr (Some (sheet\<lparr>cells := cells sheet @ row_cells (max_row sheet + 1) (row_values (last df)),
                         images := remove_images 0 (images sheet)
                                   @ [\<lparr>png = create_scatter_plots df, anchor = (''E'', max_row sheet + 1)\<rparr>]\<rparr>))"
proof -
  have "write_cols df (max_row sheet + 1) [0..<length columns] (cells sheet) =
        Inr (cells sheet @ row_cells (max_row sheet + 1) (row_values (last df)))"
    using assms next_row_free by (intro write_cols_fresh) auto
  then show ?thesis
    by (simp add: append_to_excel_def Let_def)
qed

lemma append_to_excel_empty: "append_to_excel [] (Some sheet) = Inl IndexError"
  by (simp add: append_to_excel_def Let_def write_cols_empty)

lemma append_to_excel_absent: "append_to_excel df None = Inr (Some (to_excel df))"
  by (simp add: append_to_excel_def)

section \<open>Counting rows\<close>

lemma rows_row_cells: "map (\<lambda>c. fst (fst c)) (row_cells r vs) = replicate (length vs) r"
proof -
  have "map (\<lambda>c. fst (fst c)) (row_cells r vs) = map (\<lambda>_. r) (enumerate 0 vs)"
    by (simp add: row_cells_def case_prod_beta)
  also have "\<dots> = replicate (length (enumerate 0 vs)) r"
    by (rule map_replicate_const)
  finally show ?thesis by simp
qed

lemma data_rows_append_row:
  assumes "vs \<noteq> []" and "1 < r" and "\<forall>c v. ((r, c), v) \<notin> set (cells sheet)"
  shows "data_rows (Some (sheet\<lparr>cells := cells sheet @ row_cells r vs, images := imgs\<rparr>)) =
         data_rows (Some sheet) + 1"
proof -
  let ?rows = "map (\<lambda>c. fst (fst c)) (cells sheet)"
  have notin: "r \<notin> set ?rows"
    using assms(3) by force
  have "set (filter (\<lambda>r. 1 < r) (?rows @ replicate (length vs) r)) =
        insert r (set (filter (\<lambda>r. 1 < r) ?rows))"
    using assms(1,2) by auto
  then have "card (set (filter (\<lambda>r. 1 < r) (?rows @ replicate (length vs) r))) =
             card (set (filter (\<lambda>r. 1 < r) ?rows)) + 1"
    using notin by simp
  then show ?thesis
    by (simp add: data_rows_def rows_row_cells length_remdups_card_conv del: filter_append set_filter)
qed

lemma rows_to_excel_body:
  "set (map (\<lambda>c. fst (fst c)) (concat (map (\<lambda>(r, rd). row_cells r (excel_row rd)) (enumerate k df)))) =
   {k..<k + length df}"
proof (induction df arbitrary: k)
  case Nil
  then show ?case by simp
next
  case (Cons rd df)
  have "set (map (\<lambda>c. fst (fst c)) (row_cells k (excel_row rd))) = {k}"
    by (simp add: rows_row_cells excel_row_def)
  with Cons.IH [of "Suc k"] show ?case
    by (auto simp del: map_map)
qed

lemma data_rows_to_excel: "data_rows (Some (to_excel df)) = length df"
proof -
  have "set (filter (\<lambda>r. 1 < r) (map (\<lambda>c. fst (fst c)) (cells (to_excel df)))) = {2..<2 + length df}"
    using rows_to_excel_body [of 2 df]
    by (auto simp: to_excel_def rows_row_cells simp del: map_map)
  then have "card (set (filter (\<lambda>r. 1 < r) (map (\<lambda>c. fst (fst c)) (cells (to_excel df))))) = length df"
    by simp
  then show ?thesis
    by (simp add: data_rows_def length_remdups_card_conv del: set_filter)
qed

lemma data_rows_append_to_excel:
  assumes "df \<noteq> []"
  shows "\<exists>f. append_to_excel df (Some sheet) = Inr f \<and> data_rows f = data_rows (Some sheet) + 1"
proof -
  have "row_values (last df) \<noteq> []"
    by (simp add: row_values_def)
  moreover have "1 < max_row sheet + 1"
    using max_row_positive [of sheet] by simp
  ultimately have "data_rows (Some (sheet\<lparr>cells := cells sheet @ row_cells (max_row sheet + 1) (row_values (last df)),
                         images := remove_images 0 (images sheet)
                                   @ [\<lparr>png = create_scatter_plots df, anchor = (''E'', max_row sheet + 1)\<rparr>]\<rparr>))
        = data_rows (Some sheet) + 1"
    using next_row_free [of sheet] by (intro data_rows_append_row) auto
  then show ?thesis
    by (simp add: append_to_excel_existing [OF assms])
qed

section \<open>The loop while nothing is recorded\<close>

lemma iteration_idle:
  "current_time < last_record_time s + record_interval \<Longrightarrow> iteration current_time sensor stamp s = Inr s"
  by (simp add: iteration_def)

lemma run_idle:
  "list_all (idle (last_record_time s)) es \<Longrightarrow> run (es @ rest) s = run rest s"
proof (induction es)
  case Nil
  then show ?case by simp
next
  case (Cons e es)
  then show ?case
    by (cases e) (simp_all add: idle_def iteration_idle)
qed

lemma DataFrame_empty:
  "DataFrame \<lparr>Time = [], Temperature = [], Humidity = [], Pressure = []\<rparr> = Inr []"
  by (simp add: DataFrame_def)

section \<open>A pass that records\<close>

lemma DataFrame_aligned:
  "aligned d \<Longrightarrow> \<exists>df. DataFrame d = Inr df \<and> length df = length (Time d)"
  by (simp add: aligned_def DataFrame_def)

lemma iteration_due:
  assumes due: "last_record_time s + record_interval \<le> current_time"
    and al: "aligned (records s)"
  shows "\<exists>df f. DataFrame (records s\<lparr>Time := Time (records s) @ [stamp],
                     Temperature := Temperature (records s) @ [c],
                     Humidity := Humidity (records s) @ [h],
                     Pressure := Pressure (records s) @ [p]\<rparr>) = Inr df
           \<and> length df = Suc (length (Time (records s)))
           \<and> append_to_excel df (excel_file s) = Inr f
           \<and> iteration current_time (Inr (c, h, p)) stamp s =
               Inr (s\<lparr>records := records s\<lparr>Time := Time (records s) @ [stamp],
                                   Temperature := Temperature (records s) @ [c],
                                   Humidity := Humidity (records s) @ [h],
                                   Pressure := Pressure (records s) @ [p]\<rparr>,
                       stdout := stdout s @ [Reading_line stamp c h p],
                       excel_file := f,
                       last_record_time := current_time\<rparr>)"
proof -
  let ?d = "records s\<lparr>Time := Time (records s) @ [stamp],
                     Temperature := Temperature (records s) @ [c],
                     Humidity := Humidity (records s) @ [h],
                     Pressure := Pressure (records s) @ [p]\<rparr>"
  have "aligned ?d"
    using al by (simp add: aligned_def)
  then obtain df where df: "DataFrame ?d = Inr df" "length df = length (Time ?d)"
    using DataFrame_aligned by blast
  then have ne: "df \<noteq> []" by auto
  obtain f where f: "append_to_excel df (excel_file s) = Inr f"
  proof (cases "excel_file s")
    case None
    then show ?thesis using that by (simp add: append_to_excel_absent)
  next
    case (Some sheet)
    then show ?thesis using that ne by (simp add: append_to_excel_existing)
  qed
  show ?thesis
    using due df f by (simp add: iteration_def print_def Let_def)
qed

section \<open>Rows and readings along the loop\<close>

lemma rows_in_step_print: "rows_in_step k (print l s) = rows_in_step k s"
  by (simp add: rows_in_step_def print_def)

lemma iteration_rows_in_step:
  assumes inv: "rows_in_step k s"
  shows "case iteration current_time sensor stamp s of
           Inl (e, s') \<Rightarrow> rows_in_step k s'
         | Inr s' \<Rightarrow> rows_in_step k s'"
proof (cases "last_record_time s + record_interval \<le> current_time")
  case False
  then show ?thesis
    using inv by (simp add: iteration_def)
next
  case due: True
  show ?thesis
  proof (cases sensor)
    case (Inl e)
    then show ?thesis
      using inv due by (simp add: iteration_def)
  next
    case (Inr v)
    obtain c h p where v: "v = (c, h, p)"
      by (cases v) auto
    from inv have al: "aligned (records s)"
      by (simp add: rows_in_step_def)
    let ?d = "records s\<lparr>Time := Time (records s) @ [stamp],
                     Temperature := Temperature (records s) @ [c],
                     Humidity := Humidity (records s) @ [h],
                     Pressure := Pressure (records s) @ [p]\<rparr>"
    obtain df f where df: "DataFrame ?d = Inr df" "length df = Suc (length (Time (records s)))"
      and f: "append_to_excel df (excel_file s) = Inr f"
      and it: "iteration current_time (Inr (c, h, p)) stamp s =
               Inr (s\<lparr>records := ?d,
                       stdout := stdout s @ [Reading_line stamp c h p],
                       excel_file := f,
                       last_record_time := current_time\<rparr>)"
      using iteration_due [OF due al, where stamp = stamp and c = c and h = h and p = p] by blast
    from df have ne: "df \<noteq> []" by auto
    have rows: "data_rows f = k + Suc (length (Time (records s)))"
    proof (cases "excel_file s")
      case None
      with inv have "k + length (Time (records s)) = 0"
        by (simp add: rows_in_step_def data_rows_def)
      moreover from None f have "f = Some (to_excel df)"
        by (simp add: append_to_excel_absent)
      ultimately show ?thesis
        using df(2) by (simp add: data_rows_to_excel)
    next
      case (Some sheet)
      with data_rows_append_to_excel [OF ne, of sheet] f inv show ?thesis
        by (auto simp: rows_in_step_def)
    qed
    have "aligned ?d"
      using al by (simp add: aligned_def)
    with rows show ?thesis
      unfolding Inr v it by (simp add: rows_in_step_def)
  qed
qed

lemma run_rows_in_step:
  "KeyboardInterrupt \<notin> set es \<Longrightarrow> rows_in_step k s \<Longrightarrow> rows_in_step k (snd (run es s))"
proof (induction es arbitrary: s)
  case Nil
  then show ?case by simp
next
  case (Cons e es)
  from Cons.prems(1) obtain current_time sensor stamp where e: "e = Pass current_time sensor stamp"
    by (cases e) auto
  from Cons.prems(1) have rest: "KeyboardInterrupt \<notin> set es" by simp
  show ?case
  proof (cases "iteration current_time sensor stamp s")
    case (Inl a)
    then show ?thesis
      using iteration_rows_in_step [OF Cons.prems(2), of current_time sensor stamp]
      by (cases a) (simp add: e rows_in_step_print)
  next
    case (Inr s')
    then show ?thesis
      using iteration_rows_in_step [OF Cons.prems(2), of current_time sensor stamp]
        Cons.IH [OF rest, of s']
      by (simp add: e)
  qed
qed

section \<open>The scenario, evaluated\<close>


lemma interrupt_after_first_pass:
  "snd (program None 0 [first_pass, KeyboardInterrupt]) =
     \<lparr>records = \<lparr>Time = [55000000], Temperature = [Some 22], Humidity = [Some 55], Pressure = [Some 1013]\<rparr>,
       last_record_time = 55000000,
       excel_file = Some ((to_excel [first_sample])
          \<lparr>cells := cells (to_excel [first_sample]) @ row_cells 3 (row_values first_sample),
           images := [\<lparr>png = create_scatter_plots [first_sample], anchor = (''E'', 3)\<rparr>]\<rparr>),
       stdout = [Banner, Reading_line 55000000 (Some 22) (Some 55) (Some 1013), Program_stopped, Data_saved]\<rparr>"
proof -
  have mr: "max_row (to_excel [first_sample]) = 2"
    by (simp add: max_row_def to_excel_def row_cells_def columns_def excel_row_def enumerate_eq_zip upt_rec)
  have im: "remove_images 0 (images (to_excel [first_sample])) = []"
    by (subst remove_images.simps) (simp add: to_excel_def)
  have df: "DataFrame \<lparr>Time = [55000000], Temperature = [Some 22], Humidity = [Some 55], Pressure = [Some 1013]\<rparr>
            = Inr [first_sample]"
    by (simp add: DataFrame_def first_sample_def)
  have "program None 0 [first_pass, KeyboardInterrupt] =
        on_interrupt \<lparr>records = \<lparr>Time = [55000000], Temperature = [Some 22], Humidity = [Some 55], Pressure = [Some 1013]\<rparr>,
       last_record_time = 55000000,
       excel_file = Some (to_excel [first_sample]),
       stdout = [Banner, Reading_line 55000000 (Some 22) (Some 55) (Some 1013)]\<rparr>"
    by (simp add: program_def start_def first_pass_def iteration_def record_interval_def print_def
      DataFrame_def append_to_excel_absent first_sample_def)
  then show ?thesis
    by (simp add: on_interrupt_def print_def df append_to_excel_existing mr im)
qed

section \<open>Mean and trend\<close>


lemma mean_no_missing:
  assumes "ys \<noteq> []" and "\<not> isnull_any ys"
  shows "mean ys = Some (sum_list (map the ys) / real (length ys))"
proof -
  from assms(2) have "filter (\<lambda>y. y \<noteq> None) ys = ys"
    by (induction ys) (auto simp: isnull_any_def)
  with assms(1) show ?thesis
    by (simp add: mean_def)
qed

lemma arange_Suc: "arange (Suc n) = arange n @ [real n]"
  by (simp add: arange_def)

lemma sum_arange: "sum_list (arange n) = real n * (real n - 1) / 2"
  by (induction n) (simp_all add: arange_Suc arange_def field_simps)

lemma sum_squares_arange:
  "sum_list (map (\<lambda>x. x * x) (arange n)) = (real n - 1) * real n * (2 * real n - 1) / 6"
  by (induction n) (simp_all add: arange_Suc arange_def field_simps)

lemma arange_spread:
  assumes "1 < n"
  shows "0 < real n * sum_list (map (\<lambda>x. x * x) (arange n)) - sum_list (arange n) * sum_list (arange n)"
proof -
  have "real n * sum_list (map (\<lambda>x. x * x) (arange n)) - sum_list (arange n) * sum_list (arange n)
        = real n * real n * (real n - 1) * (real n + 1) / 12"
    unfolding sum_arange sum_squares_arange by (simp add: field_simps)
  moreover have "0 < real n * real n * (real n - 1) * (real n + 1) / 12"
    using assms by simp
  ultimately show ?thesis by simp
qed

lemma squared_residuals_expand:
  assumes "length xs = length ys"
  shows "squared_residuals (a, b) xs ys =
           sum_list (map (\<lambda>y. y * y) ys)
           - 2 * a * sum_list (map (\<lambda>(x, y). x * y) (zip xs ys))
           - 2 * b * sum_list ys
           + a * a * sum_list (map (\<lambda>x. x * x) xs)
           + 2 * a * b * sum_list xs
           + real (length xs) * (b * b)"
  using assms
  by (induction xs ys rule: list_induct2)
     (simp_all add: squared_residuals_def power2_eq_square algebra_simps)

lemma polyfit_least_squares:
  assumes len: "length xs = length ys"
    and spread: "0 < real (length xs) * sum_list (map (\<lambda>x. x * x) xs) - sum_list xs * sum_list xs"
    and ne: "xs \<noteq> []"
  shows "squared_residuals (polyfit xs ys) xs ys \<le> squared_residuals (a, b) xs ys"
proof -
  define n where "n = real (length xs)"
  define sx where "sx = sum_list xs"
  define sy where "sy = sum_list ys"
  define sxx where "sxx = sum_list (map (\<lambda>x. x * x) xs)"
  define sxy where "sxy = sum_list (map (\<lambda>(x, y). x * y) (zip xs ys))"
  define syy where "syy = sum_list (map (\<lambda>y. y * y) ys)"
  define D where "D = n * sxx - sx * sx"
  define m where "m = (n * sxy - sx * sy) / D"
  define c where "c = (sy - m * sx) / n"
  have fit: "polyfit xs ys = (m, c)"
    by (simp add: polyfit_def Let_def n_def sx_def sy_def sxx_def sxy_def D_def m_def c_def)
  have npos: "0 < n"
    using ne by (simp add: n_def)
  have Dpos: "0 < D"
    using spread by (simp add: D_def n_def sxx_def sx_def)
  have N1: "sy = m * sx + n * c"
    using npos by (simp add: c_def)
  have "m * D = n * sxy - sx * sy"
    using Dpos by (simp add: m_def)
  then have "n * sxy = m * (n * sxx - sx * sx) + sx * (m * sx + n * c)"
    unfolding D_def N1 [symmetric] by simp
  then have "n * sxy = n * (m * sxx + c * sx)"
    by (simp add: algebra_simps)
  then have N2: "sxy = m * sxx + c * sx"
    using npos by simp
  have Q: "squared_residuals (a', b') xs ys =
           syy - 2 * a' * sxy - 2 * b' * sy + a' * a' * sxx + 2 * a' * b' * sx + n * (b' * b')"
    for a' b'
    using squared_residuals_expand [OF len, of a' b']
    by (simp add: n_def sx_def sy_def sxx_def sxy_def syy_def)
  have diff: "squared_residuals (a, b) xs ys - squared_residuals (m, c) xs ys =
              sxx * (a - m)\<^sup>2 + 2 * sx * (a - m) * (b - c) + n * (b - c)\<^sup>2"
    unfolding Q N1 N2 by (simp add: power2_eq_square algebra_simps)
  have "n * (sxx * (a - m)\<^sup>2 + 2 * sx * (a - m) * (b - c) + n * (b - c)\<^sup>2) =
        (n * (b - c) + sx * (a - m))\<^sup>2 + D * (a - m)\<^sup>2"
    by (simp add: D_def power2_eq_square algebra_simps)
  moreover have "0 \<le> (n * (b - c) + sx * (a - m))\<^sup>2 + D * (a - m)\<^sup>2"
    using Dpos by simp
  ultimately have "0 \<le> n * (sxx * (a - m)\<^sup>2 + 2 * sx * (a - m) * (b - c) + n * (b - c)\<^sup>2)"
    by simp
  then have "0 \<le> sxx * (a - m)\<^sup>2 + 2 * sx * (a - m) * (b - c) + n * (b - c)\<^sup>2"
    using npos by (simp add: zero_le_mult_iff)
  with diff show ?thesis
    by (simp add: fit)
qed

lemma index_fit_least_squares:
  assumes "1 < length ys"
  shows "squared_residuals (polyfit (arange (length ys)) ys) (arange (length ys)) ys
         \<le> squared_residuals (a, b) (arange (length ys)) ys"
proof (rule polyfit_least_squares)
  show "length (arange (length ys)) = length ys"
    by (simp add: arange_def)
  show "arange (length ys) \<noteq> []"
    using assms by (auto simp: arange_def)
  show "0 < real (length (arange (length ys))) * sum_list (map (\<lambda>x. x * x) (arange (length ys)))
            - sum_list (arange (length ys)) * sum_list (arange (length ys))"
    using arange_spread [OF assms] by (simp add: arange_def)
qed

lemma polyfit_example: "polyfit (arange 4) [10, 12, 14, 16] = (2, 10)"
  by (simp add: polyfit_def arange_def upt_rec)

lemma polyval_example: "polyval (2, 10) (arange 4) = [10, 12, 14, 16]"
  by (simp add: polyval_def arange_def upt_rec)

section \<open>Images along the loop\<close>

lemma at_most_one_image_kept:
  assumes "image_count report \<le> 1" and "append_to_excel df report = Inr f"
  shows "image_count f \<le> 1"
proof (cases report)
  case None
  with assms(2) show ?thesis
    by (auto simp: append_to_excel_absent image_count_def to_excel_def)
next
  case (Some sheet)
  with assms(2) have ne: "df \<noteq> []"
    by (auto simp: append_to_excel_empty)
  from assms(1) Some have "length (remove_images 0 (images sheet)) = 0"
    by (simp add: image_count_def remove_images_length)
  with assms(2) Some show ?thesis
    by (auto simp: append_to_excel_existing [OF ne] image_count_def)
qed

lemma iteration_images:
  assumes "image_count (excel_file s) \<le> 1"
  shows "case iteration current_time sensor stamp s of
           Inl (e, s') \<Rightarrow> image_count (excel_file s') \<le> 1
         | Inr s' \<Rightarrow> image_count (excel_file s') \<le> 1"
  using assms at_most_one_image_kept [of "excel_file s"]
  by (auto simp: iteration_def print_def Let_def split: sum.splits prod.splits)

lemma on_interrupt_images:
  assumes "image_count (excel_file s) \<le> 1"
  shows "image_count (excel_file (snd (on_interrupt s))) \<le> 1"
  using assms at_most_one_image_kept [of "excel_file s"]
  by (auto simp: on_interrupt_def print_def Let_def split: sum.splits)

lemma run_images:
  "image_count (excel_file s) \<le> 1 \<Longrightarrow> image_count (excel_file (snd (run es s))) \<le> 1"
proof (induction es arbitrary: s)
  case Nil
  then show ?case by simp
next
  case (Cons e es)
  show ?case
  proof (cases e)
    case KeyboardInterrupt
    then show ?thesis
      using on_interrupt_images [OF Cons.prems] by simp
  next
    case (Pass current_time sensor stamp)
    then show ?thesis
      using iteration_images [OF Cons.prems, of current_time sensor stamp] Cons.IH
      by (auto simp: print_def split: sum.splits prod.splits)
  qed
qed

section \<open>How the loop ends\<close>

lemma sensor_exception_caught:
  assumes "last_record_time s + record_interval \<le> current_time"
  shows "run (Pass current_time (Inl e) stamp # es) s = (Caught e, print (Unexpected (str e)) s)"
  using assms by (simp add: iteration_def)

lemma interrupt_saves_once:
  assumes "aligned (records s)" and "Time (records s) \<noteq> []"
  shows "\<exists>df f. DataFrame (records s) = Inr df
           \<and> append_to_excel df (excel_file s) = Inr f
           \<and> run (KeyboardInterrupt # es) s =
               (Stopped, s\<lparr>stdout := stdout s @ [Program_stopped, Data_saved], excel_file := f\<rparr>)"
proof -
  obtain df where df: "DataFrame (records s) = Inr df" "length df = length (Time (records s))"
    using DataFrame_aligned [OF assms(1)] by blast
  with assms(2) have ne: "df \<noteq> []" by auto
  obtain f where f: "append_to_excel df (excel_file s) = Inr f"
  proof (cases "excel_file s")
    case None
    then show ?thesis using that by (simp add: append_to_excel_absent)
  next
    case (Some sheet)
    then show ?thesis using that ne by (simp add: append_to_excel_existing)
  qed
  show ?thesis
    using df f by (simp add: on_interrupt_def print_def)
qed

section \<open>Properties of the report writer and of the loop\<close>

text \<open>
  C9. The loop that removes the embedded images iterates over the list it removes from.
  For a sheet with \<open>n\<close> images it removes only every other one: half of \<open>n\<close>
  rounded up are removed and half of \<open>n\<close> rounded down stay in place before the new
  chart is added, so that the saved sheet holds one image more than that. All images are
  removed exactly when \<open>n\<close> is at most 1. When the images are pairwise different,
  the ones that stay are those at the odd positions.
\<close>

theorem image_removal_skips_every_other:
  "length (remove_images 0 imgs) = length imgs div 2
   \<and> length imgs - length (remove_images 0 imgs) = (length imgs + 1) div 2
   \<and> (remove_images 0 imgs = [] \<longleftrightarrow> length imgs \<le> 1)
   \<and> (distinct imgs \<longrightarrow> remove_images 0 imgs = every_other imgs)
   \<and> (df \<noteq> [] \<longrightarrow>
        (\<exists>sheet'. append_to_excel df (Some sheet) = Inr (Some sheet')
           \<and> images sheet' = remove_images 0 (images sheet)
                 @ [\<lparr>png = create_scatter_plots df, anchor = (''E'', max_row sheet + 1)\<rparr>]
           \<and> image_count (Some sheet') = length (images sheet) div 2 + 1))"
proof -
  have len: "length (remove_images 0 xs) = length xs div 2" for xs :: "'b list"
    by (simp add: remove_images_length)
  have "remove_images 0 imgs = [] \<longleftrightarrow> length (remove_images 0 imgs) = 0"
    by simp
  also have "\<dots> \<longleftrightarrow> length imgs \<le> 1"
    unfolding len by auto
  finally have none: "remove_images 0 imgs = [] \<longleftrightarrow> length imgs \<le> 1" .
  have kept: "remove_images 0 imgs = every_other imgs" if "distinct imgs"
    using remove_images_distinct [OF that, of 0] by simp
  have writer: "\<exists>sheet'. append_to_excel df (Some sheet) = Inr (Some sheet')
           \<and> images sheet' = remove_images 0 (images sheet)
                 @ [\<lparr>png = create_scatter_plots df, anchor = (''E'', max_row sheet + 1)\<rparr>]
           \<and> image_count (Some sheet') = length (images sheet) div 2 + 1" if "df \<noteq> []"
    by (simp add: append_to_excel_existing [OF that] image_count_def len)
  from len [of imgs] none kept writer show ?thesis
    by auto
qed

theorem image_removal_skips_every_other_witness:
  "distinct [1, 2, 3, 4, 5 :: nat] \<and> remove_images 0 [1, 2, 3, 4, 5 :: nat] = [2, 4]
   \<and> [first_sample, second_sample] \<noteq> []
   \<and> (\<exists>sheet'. append_to_excel [first_sample, second_sample] (Some two_image_report) = Inr (Some sheet')
         \<and> image_count (Some sheet') = 2)"
proof -
  have d: "distinct [1, 2, 3, 4, 5 :: nat]" and ne: "[first_sample, second_sample] \<noteq> []"
    by simp_all
  have two: "length (images two_image_report) = 2"
    by (simp add: two_image_report_def)
  from image_removal_skips_every_other [of "[1, 2, 3, 4, 5 :: nat]" "[first_sample, second_sample]" two_image_report]
  have "remove_images 0 [1, 2, 3, 4, 5 :: nat] = every_other [1, 2, 3, 4, 5]"
    and "\<exists>sheet'. append_to_excel [first_sample, second_sample] (Some two_image_report) = Inr (Some sheet')
           \<and> image_count (Some sheet') = length (images two_image_report) div 2 + 1"
    using d ne by blast+
  with d ne two show ?thesis by (auto simp: numeral_2_eq_2)
qed



text \<open>
  C10. If the interrupt arrives before any reading has been sampled and the report file
  exists, the save in the interrupt handler asks for the last row of an empty table: the
  \<^verbatim>\<open>IndexError\<close> leaves the handler uncaught, after
  \<open>Program_stopped\<close> has been printed and with the file untouched. The report
  writer returns normally exactly when the record set is non-empty or the file is absent.
\<close>

theorem interrupt_before_first_sample:
  "(list_all (idle t0) es \<longrightarrow>
      program (Some sheet) t0 (es @ [KeyboardInterrupt]) =
        (Uncaught IndexError, print Program_stopped (start (Some sheet) t0)))
   \<and> ((\<exists>f. append_to_excel df report = Inr f) \<longleftrightarrow> (df \<noteq> [] \<or> report = None))"
proof (intro conjI impI)
  assume "list_all (idle t0) es"
  then have "run (es @ [KeyboardInterrupt]) (start (Some sheet) t0)
             = run [KeyboardInterrupt] (start (Some sheet) t0)"
    by (intro run_idle) (simp add: start_def)
  also have "\<dots> = (Uncaught IndexError, print Program_stopped (start (Some sheet) t0))"
    by (simp add: on_interrupt_def print_def start_def DataFrame_empty append_to_excel_empty)
  finally show "program (Some sheet) t0 (es @ [KeyboardInterrupt]) =
        (Uncaught IndexError, print Program_stopped (start (Some sheet) t0))"
    by (simp add: program_def)
next
  show "(\<exists>f. append_to_excel df report = Inr f) \<longleftrightarrow> (df \<noteq> [] \<or> report = None)"
  proof (cases report)
    case None
    then show ?thesis by (simp add: append_to_excel_absent)
  next
    case (Some sheet)
    then show ?thesis
      by (cases "df = []") (simp_all add: append_to_excel_empty append_to_excel_existing)
  qed
qed

theorem interrupt_before_first_sample_witness:
  "list_all (idle 0) [Pass 10000000 (Inr (Some 22, Some 55, Some 1013)) 10000000]
   \<and> fst (program (Some (to_excel [first_sample])) 0
            [Pass 10000000 (Inr (Some 22, Some 55, Some 1013)) 10000000, KeyboardInterrupt])
       = Uncaught IndexError
   \<and> excel_file (snd (program (Some (to_excel [first_sample])) 0
            [Pass 10000000 (Inr (Some 22, Some 55, Some 1013)) 10000000, KeyboardInterrupt]))
       = Some (to_excel [first_sample])
   \<and> stdout (snd (program (Some (to_excel [first_sample])) 0
            [Pass 10000000 (Inr (Some 22, Some 55, Some 1013)) 10000000, KeyboardInterrupt]))
       = [Banner, Program_stopped]"
proof -
  have i: "list_all (idle 0) [Pass 10000000 (Inr (Some 22, Some 55, Some 1013)) 10000000]"
    by (simp add: idle_def record_interval_def)
  from interrupt_before_first_sample [of 0 "[Pass 10000000 (Inr (Some 22, Some 55, Some 1013)) 10000000]"
      "to_excel [first_sample]" "[]" None] i
  show ?thesis
    by (simp add: print_def start_def)
qed




text \<open>
  C2, as stated: after every completed call of the report writer, the shutdown save
  included, the report has as many data rows as the record set has readings. After one
  sample and the interrupt the report holds two data rows for one reading, the save on
  shutdown having written the last reading again; and a run that finds a report with one
  data row holds two data rows after its first reading.
\<close>

theorem rows_exceed_readings:
  "data_rows (excel_file (snd (program None 0 [first_pass, KeyboardInterrupt]))) = 2
   \<and> length (Time (records (snd (program None 0 [first_pass, KeyboardInterrupt])))) = 1
   \<and> data_rows (excel_file (snd (program (Some (to_excel [first_sample])) 0 [second_pass]))) = 2
   \<and> length (Time (records (snd (program (Some (to_excel [first_sample])) 0 [second_pass])))) = 1"
proof -
  have a: "data_rows (excel_file (snd (program None 0 [first_pass, KeyboardInterrupt]))) = 2"
    unfolding interrupt_after_first_pass
    by (simp add: data_rows_def row_values_def to_excel_def row_cells_def columns_def
        excel_row_def enumerate_eq_zip upt_rec)
  have b: "length (Time (records (snd (program None 0 [first_pass, KeyboardInterrupt])))) = 1"
    unfolding interrupt_after_first_pass by simp
  have ne: "KeyboardInterrupt \<notin> set [second_pass]"
    by (simp add: second_pass_def)
  have d: "length (Time (records (snd (program (Some (to_excel [first_sample])) 0 [second_pass])))) = 1"
    by (simp add: program_def start_def second_pass_def iteration_def record_interval_def print_def
        DataFrame_def append_to_excel_existing split: sum.splits)
  have c: "data_rows (excel_file (snd (program (Some (to_excel [first_sample])) 0 [second_pass]))) = 2"
    using run_rows_in_step [OF ne, of 1 "start (Some (to_excel [first_sample])) 0"] d
    by (simp add: rows_in_step_def program_def start_def aligned_def data_rows_to_excel)
  from a b c d show ?thesis by simp
qed

text \<open>
  C2, amended: along the sampling loop, after every pass, the number of data rows of the
  report equals the number of data rows the report had when the program started (none
  when there was no file) plus the number of readings in the record set. The save on
  shutdown is left out.
\<close>

theorem rows_follow_readings:
  assumes "KeyboardInterrupt \<notin> set es"
  shows "data_rows (excel_file (snd (program file0 t0 es))) =
         data_rows file0 + length (Time (records (snd (program file0 t0 es))))"
proof -
  have "rows_in_step (data_rows file0) (start file0 t0)"
    by (simp add: rows_in_step_def aligned_def start_def)
  from run_rows_in_step [OF assms this] show ?thesis
    by (simp add: rows_in_step_def program_def start_def)
qed

theorem rows_follow_readings_witness:
  "KeyboardInterrupt \<notin> set [first_pass, second_pass]
   \<and> data_rows (excel_file (snd (program None 0 [first_pass, second_pass]))) = 2
   \<and> length (Time (records (snd (program None 0 [first_pass, second_pass])))) = 2"
proof -
  have ne: "KeyboardInterrupt \<notin> set [first_pass, second_pass]"
    by (simp add: first_pass_def second_pass_def)
  have d: "length (Time (records (snd (program None 0 [first_pass, second_pass])))) = 2"
    by (simp add: program_def start_def first_pass_def second_pass_def iteration_def record_interval_def print_def
        DataFrame_def append_to_excel_absent append_to_excel_existing)
  from rows_follow_readings [OF ne, of None 0] ne d show ?thesis
    by (simp add: data_rows_def)
qed


text \<open>
  C5, evaluated where it fails. The report holds two embedded images when the second
  reading of the scenario is appended. The loop removes the first image only; the second
  stays, the new chart is added, and the saved file holds two images.
\<close>

theorem second_image_survives:
  "\<exists>sheet'. append_to_excel [first_sample, second_sample] (Some two_image_report) = Inr (Some sheet')
      \<and> images sheet' =
          [\<lparr>png = create_scatter_plots [first_sample], anchor = (''E'', 3)\<rparr>,
           \<lparr>png = create_scatter_plots [first_sample, second_sample], anchor = (''E'', 3)\<rparr>]
      \<and> image_count (Some sheet') = 2"
proof -
  have mr: "max_row two_image_report = 2"
    by (simp add: two_image_report_def max_row_def to_excel_def row_cells_def columns_def
        excel_row_def enumerate_eq_zip upt_rec)
  have "remove_images 0 (images two_image_report) =
        remove_images 1 [\<lparr>png = create_scatter_plots [first_sample], anchor = (''E'', 3)\<rparr>]"
    by (subst remove_images.simps) (simp add: two_image_report_def)
  also have "\<dots> = [\<lparr>png = create_scatter_plots [first_sample], anchor = (''E'', 3)\<rparr>]"
    by (subst remove_images.simps) simp
  finally have im: "remove_images 0 (images two_image_report) =
        [\<lparr>png = create_scatter_plots [first_sample], anchor = (''E'', 3)\<rparr>]" .
  show ?thesis
    by (simp add: append_to_excel_existing mr im image_count_def)
qed

text \<open>
  C6, evaluated where it fails. The report file exists and the interrupt arrives before
  any reading: the handler prints that the program stopped, its save raises
  \<^verbatim>\<open>IndexError\<close>, and that exception ends the program uncaught; nothing is
  saved and the confirmation is not printed.
\<close>

theorem interrupt_with_empty_record_set:
  "program (Some (to_excel [first_sample])) 0 [KeyboardInterrupt] =
     (Uncaught IndexError,
      \<lparr>records = \<lparr>Time = [], Temperature = [], Humidity = [], Pressure = []\<rparr>,
       last_record_time = 0,
       excel_file = Some (to_excel [first_sample]),
       stdout = [Banner, Program_stopped]\<rparr>)"
  by (simp add: program_def start_def on_interrupt_def print_def DataFrame_empty append_to_excel_empty)

text \<open>
  C7. With at least two readings and no missing temperature, the trend drawn on the
  temperature chart is the line fitted to the temperatures against the sample indices
  0, 1, 2, ... (not against the times), evaluated at those indices; no line has a smaller
  sum of squared residuals over these points. For temperatures 10, 12, 14, 16 the fitted
  slope is 2 and the intercept 10, whatever the times are.
\<close>

theorem trend_fitted_on_index:
  assumes "1 < length df" and "\<not> isnull_any (map temperature df)"
  shows "trend (temperature_axes (create_scatter_plots df)) =
           Some (zip (map time df)
                  (polyval (polyfit (arange (length df)) (map (\<lambda>r. the (temperature r)) df))
                     (arange (length df))))
         \<and> (\<forall>a b. squared_residuals (polyfit (arange (length df)) (map (\<lambda>r. the (temperature r)) df))
                     (arange (length df)) (map (\<lambda>r. the (temperature r)) df)
                   \<le> squared_residuals (a, b) (arange (length df)) (map (\<lambda>r. the (temperature r)) df))
         \<and> (map temperature df = [Some 10, Some 12, Some 14, Some 16] \<longrightarrow>
               polyfit (arange (length df)) (map (\<lambda>r. the (temperature r)) df) = (2, 10)
               \<and> trend (temperature_axes (create_scatter_plots df)) =
                   Some (zip (map time df) [10, 12, 14, 16]))"
proof -
  let ?ys = "map (\<lambda>r. the (temperature r)) df"
  have drawn: "trend (temperature_axes (create_scatter_plots df)) =
           Some (zip (map time df) (polyval (polyfit (arange (length df)) ?ys) (arange (length df))))"
    using assms by (simp add: create_scatter_plots_def plot_metric_def Let_def comp_def)
  have least: "squared_residuals (polyfit (arange (length df)) ?ys) (arange (length df)) ?ys
                 \<le> squared_residuals (a, b) (arange (length df)) ?ys" for a b
    using index_fit_least_squares [of ?ys a b] assms(1) by simp
  have example: "polyfit (arange (length df)) ?ys = (2, 10)
               \<and> trend (temperature_axes (create_scatter_plots df)) =
                   Some (zip (map time df) [10, 12, 14, 16])"
    if eq: "map temperature df = [Some 10, Some 12, Some 14, Some 16]"
  proof -
    from eq have "length (map temperature df) = 4" by simp
    then have len: "length df = 4" by simp
    have "?ys = map the (map temperature df)" by (simp add: comp_def)
    then have ys: "?ys = [10, 12, 14, 16]"
      unfolding eq by simp
    show ?thesis
      unfolding drawn unfolding len ys by (simp add: polyfit_example polyval_example)
  qed
  from drawn least example show ?thesis by blast
qed

theorem trend_fitted_on_index_witness:
  "1 < length irregular_samples \<and> \<not> isnull_any (map temperature irregular_samples)
   \<and> map temperature irregular_samples = [Some 10, Some 12, Some 14, Some 16]
   \<and> polyfit (arange (length irregular_samples)) (map (\<lambda>r. the (temperature r)) irregular_samples) = (2, 10)
   \<and> trend (temperature_axes (create_scatter_plots irregular_samples)) =
        Some [(0, 10), (55000000, 12), (200000000, 14), (1000000000, 16)]"
proof -
  have h: "1 < length irregular_samples" "\<not> isnull_any (map temperature irregular_samples)"
    and e: "map temperature irregular_samples = [Some 10, Some 12, Some 14, Some 16]"
    and t: "map time irregular_samples = [0, 55000000, 200000000, 1000000000]"
    by (simp_all add: irregular_samples_def isnull_any_def)
  from trend_fitted_on_index [OF h] e
  have "polyfit (arange (length irregular_samples)) (map (\<lambda>r. the (temperature r)) irregular_samples) = (2, 10)"
    and "trend (temperature_axes (create_scatter_plots irregular_samples)) =
                   Some (zip (map time irregular_samples) [10, 12, 14, 16])"
    by blast+
  with h e t show ?thesis by simp
qed

text \<open>
  C8. For a non-empty record set, the horizontal line of each chart whose column has no
  missing value lies at the arithmetic mean of that column over the whole record set: the
  sum of the values divided by their number. For temperatures 20, 22, 24 it lies at 22.
\<close>

theorem mean_line_is_arithmetic_mean:
  assumes "df \<noteq> []"
  shows "(\<not> isnull_any (map temperature df) \<longrightarrow>
            axhline (temperature_axes (create_scatter_plots df)) =
              Some (sum_list (map (\<lambda>r. the (temperature r)) df) / real (length df)))
         \<and> (\<not> isnull_any (map humidity df) \<longrightarrow>
            axhline (humidity_axes (create_scatter_plots df)) =
              Some (sum_list (map (\<lambda>r. the (humidity r)) df) / real (length df)))
         \<and> (\<not> isnull_any (map pressure df) \<longrightarrow>
            axhline (pressure_axes (create_scatter_plots df)) =
              Some (sum_list (map (\<lambda>r. the (pressure r)) df) / real (length df)))"
proof -
  have "axhline (plot_metric ts ys) = mean ys" for ts and ys
    by (simp add: plot_metric_def Let_def)
  then show ?thesis
    using assms unfolding create_scatter_plots_def
    by (simp add: mean_no_missing comp_def)
qed

theorem mean_line_is_arithmetic_mean_witness:
  "[\<lparr>time = 0, temperature = Some 20, humidity = Some 50, pressure = Some 1000\<rparr>,
    \<lparr>time = 55000000, temperature = Some 22, humidity = Some 55, pressure = Some 1010\<rparr>,
    \<lparr>time = 110000000, temperature = Some 24, humidity = Some 60, pressure = Some 1020\<rparr>] \<noteq> []
   \<and> \<not> isnull_any [Some 20, Some 22, Some (24::real)]
   \<and> axhline (temperature_axes (create_scatter_plots
        [\<lparr>time = 0, temperature = Some 20, humidity = Some 50, pressure = Some 1000\<rparr>,
         \<lparr>time = 55000000, temperature = Some 22, humidity = Some 55, pressure = Some 1010\<rparr>,
         \<lparr>time = 110000000, temperature = Some 24, humidity = Some 60, pressure = Some 1020\<rparr>]))
       = Some 22"
  using mean_line_is_arithmetic_mean
    [of "[\<lparr>time = 0, temperature = Some 20, humidity = Some 50, pressure = Some 1000\<rparr>,
          \<lparr>time = 55000000, temperature = Some 22, humidity = Some 55, pressure = Some 1010\<rparr>,
          \<lparr>time = 110000000, temperature = Some 24, humidity = Some 60, pressure = Some 1020\<rparr>]"]
  by (simp add: isnull_any_def)

end
